theory Spec2Isabelle
  imports Main
begin

section \<open>Values that travel through the IPC layer\<close>

text \<open>
  The payload of a message is typed \<^verbatim>\<open>any\<close> in \<^verbatim>\<open>channel.ts\<close>. The model
  keeps the part of the JavaScript value universe that the channel itself inspects:
  \<^verbatim>\<open>data instanceof Error\<close> in \<^verbatim>\<open>call\<close>, the \<^verbatim>\<open>Error\<close> that
  \<^verbatim>\<open>_handleMessage\<close> builds from a failure, and the argument array that
  \<^verbatim>\<open>RemoteClient.run\<close> builds and \<^verbatim>\<open>RemoteHost\<close> spreads.
\<close>

datatype jsval =
    DUndefined
  | DNum int
  | DStr string
  | DArr "jsval list"
  | DErr string  \<comment> \<open>an \<^verbatim>\<open>Error\<close> object with this \<^verbatim>\<open>message\<close>\<close>

text \<open>
  What an async handler's promise settles with. A handler can reject with any value;
  the model keeps the two kinds on which \<^verbatim>\<open>error?.message ?? `${error}`\<close> takes its
  two branches: an \<^verbatim>\<open>Error\<close>, which has a \<^verbatim>\<open>message\<close>, and a string, which has
  none and is its own text in a template literal.
\<close>

datatype thrown =
    ThrownError string   \<comment> \<open>\<^verbatim>\<open>throw new Error(message)\<close>\<close>
  | ThrownString string  \<comment> \<open>\<^verbatim>\<open>throw 'text'\<close>\<close>

datatype outcome = Returns jsval | Throws thrown

text \<open>\<^verbatim>\<open>error?.message ?? `${error}`\<close>\<close>

fun error_message :: "thrown \<Rightarrow> string" where
  "error_message (ThrownError m) = m"
| "error_message (ThrownString s) = s"

text \<open>\<^verbatim>\<open>data instanceof Error\<close>\<close>

fun instanceof_Error :: "jsval \<Rightarrow> bool" where
  "instanceof_Error (DErr m) = True"
| "instanceof_Error v = False"

section \<open>Data model of \<^verbatim>\<open>channel.ts\<close>\<close>

record ChannelEdge =
  edge_id :: string
  channelIds :: "string list"

text \<open>
  \<^verbatim>\<open>ChannelMessageOut\<close>. The optional fields \<^verbatim>\<open>proxiedBy\<close> and \<^verbatim>\<open>nonce\<close> are
  \<open>None\<close> when absent.
\<close>

record ChannelMessageOut =
  name :: string
  destination :: string
  data :: jsval
  source :: string
  proxiedBy :: "string option"
  nonce :: "string option"

text \<open>\<^verbatim>\<open>ChannelMessageIn\<close>: what \<^verbatim>\<open>send\<close> and \<^verbatim>\<open>call\<close> are given.\<close>

record ChannelMessageIn =
  name_in :: string
  destination_in :: string
  data_in :: jsval

text \<open>A pipe is an object; the model names it by a number (its identity).\<close>

type_synonym pipe = nat

datatype pipe_event =
    HandshakeEv  \<comment> \<open>\<^verbatim>\<open>`${ipcPrefix}:handshake`\<close>\<close>
  | MessageEv    \<comment> \<open>\<^verbatim>\<open>`${ipcPrefix}:message`\<close>\<close>

text \<open>
  Everything a channel method does to the world outside the channel object, in the
  order it does it. Promises and timers are named by a handle (a number): the closure
  stored in \<^verbatim>\<open>_callbacks\<close> captures its own \<^verbatim>\<open>resolve\<close>, \<^verbatim>\<open>reject\<close> and
  \<^verbatim>\<open>timeout\<close>.
\<close>

datatype effect =
    Listen pipe pipe_event                \<comment> \<open>\<^verbatim>\<open>pipe.listen(event, cb)\<close>\<close>
  | EmitHandshake pipe ChannelEdge        \<comment> \<open>\<^verbatim>\<open>pipe.emit('vapIpc:handshake', edge)\<close>\<close>
  | EmitMessage pipe ChannelMessageOut    \<comment> \<open>\<^verbatim>\<open>pipe.emit('vapIpc:message', message)\<close>\<close>
  | LogAddPipe string                     \<comment> \<open>\<^verbatim>\<open>_logger.log\<close> in \<^verbatim>\<open>addPipe\<close>\<close>
  | LogHandshake string string "string list"  \<comment> \<open>\<^verbatim>\<open>_logger.log\<close> in \<^verbatim>\<open>_handleHandshake\<close>\<close>
  | CallListener nat jsval                \<comment> \<open>a function registered with \<^verbatim>\<open>on\<close>/\<^verbatim>\<open>once\<close> is called\<close>
  | ResolveEdge nat string                \<comment> \<open>a \<^verbatim>\<open>waitForEdge\<close> promise resolves\<close>
  | InvokeCaller ChannelMessageOut outcome  \<comment> \<open>\<^verbatim>\<open>caller(message.data)\<close> is called; its promise settles later\<close>
  | ConsoleError thrown                   \<comment> \<open>\<^verbatim>\<open>console.error(error)\<close>\<close>
  | SetTimeout nat nat                    \<comment> \<open>\<^verbatim>\<open>setTimeout(..., opts.timeout)\<close> of the call with this handle\<close>
  | ClearTimeout nat                      \<comment> \<open>\<^verbatim>\<open>clearTimeout(timeout)\<close>\<close>
  | Resolve nat jsval                     \<comment> \<open>the \<^verbatim>\<open>call\<close> promise resolves\<close>
  | Reject nat jsval                      \<comment> \<open>the \<^verbatim>\<open>call\<close> promise rejects\<close>

text \<open>
  The class \<^verbatim>\<open>Channel\<close>. \<^verbatim>\<open>_edges\<close> is a \<^verbatim>\<open>Map\<close> that \<^verbatim>\<open>findEdgeId\<close> and
  \<^verbatim>\<open>getEdge\<close> iterate in insertion order, so it is an association list; the other
  maps are only read by key. \<^verbatim>\<open>_emitter\<close> holds two disjoint families of listeners:
  those under a string name (\<open>listeners\<close>: name, function identity, once flag) and the
  \<^verbatim>\<open>checkEdge\<close> closures of \<^verbatim>\<open>waitForEdge\<close> under the symbol \<^verbatim>\<open>kEdgeCreate\<close>
  (\<open>edgeWaiters\<close>: awaited destination, promise handle). \<open>logger\<close> says whether
  \<^verbatim>\<open>_logger\<close> is set.
\<close>

record Channel =
  chan_id :: string
  edges :: "(string \<times> ChannelEdge) list"
  callbacks :: "string \<rightharpoonup> nat"
  callers :: "string \<rightharpoonup> (jsval \<Rightarrow> outcome)"
  edgePipes :: "string \<rightharpoonup> pipe"
  pipes :: "pipe list"
  listeners :: "(string \<times> nat \<times> bool) list"
  edgeWaiters :: "(string \<times> nat) list"
  logger :: bool
  destroyed :: bool

text \<open>\<^verbatim>\<open>new Channel(id)\<close>\<close>

definition new_Channel :: "string \<Rightarrow> Channel" where
  "new_Channel i =
     \<lparr>chan_id = i, edges = [], callbacks = Map.empty, callers = Map.empty,
      edgePipes = Map.empty, pipes = [], listeners = [], edgeWaiters = [],
      logger = False, destroyed = False\<rparr>"

text \<open>\<^verbatim>\<open>Map.prototype.set\<close>: an existing key keeps its place, a new key goes last.\<close>

fun map_set :: "('k \<times> 'v) list \<Rightarrow> 'k \<Rightarrow> 'v \<Rightarrow> ('k \<times> 'v) list" where
  "map_set [] k v = [(k, v)]"
| "map_set ((k', v') # kvs) k v =
     (if k' = k then (k, v) # kvs else (k', v') # map_set kvs k v)"

section \<open>Topology: handshakes\<close>

text \<open>\<^verbatim>\<open>Array.prototype.indexOf\<close>\<close>

fun indexOf :: "'a list \<Rightarrow> 'a \<Rightarrow> int" where
  "indexOf [] x = - 1"
| "indexOf (y # ys) x =
     (if y = x then 0 else (let i = indexOf ys x in if i < 0 then - 1 else i + 1))"

text \<open>\<^verbatim>\<open>arr.filter((id, index, arr) => arr.indexOf(id) === index)\<close>\<close>

definition first_occurrences :: "'a list \<Rightarrow> 'a list" where
  "first_occurrences arr =
     map snd (filter (\<lambda>(index, x). indexOf arr x = int index) (enumerate 0 arr))"

definition getEdge :: "Channel \<Rightarrow> ChannelEdge" where
  "getEdge c =
     \<lparr>edge_id = chan_id c,
      channelIds = first_occurrences
        (map fst (edges c) @ concat (map (\<lambda>(k, e). channelIds e) (edges c)))\<rparr>"

fun findEdge_loop :: "(string \<times> ChannelEdge) list \<Rightarrow> string \<Rightarrow> string option" where
  "findEdge_loop [] d = None"
| "findEdge_loop ((k, e) # es) d =
     (if edge_id e = d \<or> d \<in> set (channelIds e) then Some (edge_id e)
      else findEdge_loop es d)"

definition findEdgeId :: "Channel \<Rightarrow> string \<Rightarrow> string option" where
  "findEdgeId c d = findEdge_loop (edges c) d"

definition emitHandshake :: "Channel \<Rightarrow> pipe \<Rightarrow> effect list" where
  "emitHandshake c p = [EmitHandshake p (getEdge c)]"

definition handshakeAll :: "Channel \<Rightarrow> effect list" where
  "handshakeAll c = concat (map (emitHandshake c) (pipes c))"

text \<open>
  \<^verbatim>\<open>addPipe\<close>: two \<^verbatim>\<open>pipe.listen\<close> calls, \<^verbatim>\<open>_pipes.push(pipe)\<close>, and the log line.
\<close>

definition addPipe :: "Channel \<Rightarrow> pipe \<Rightarrow> Channel \<times> effect list" where
  "addPipe c p =
     (c\<lparr>pipes := pipes c @ [p]\<rparr>,
      [Listen p HandshakeEv, Listen p MessageEv]
        @ (if logger c then [LogAddPipe (chan_id c)] else []))"

definition setLogger :: "Channel \<Rightarrow> Channel" where
  "setLogger c = c\<lparr>logger := True\<rparr>"

text \<open>
  \<^verbatim>\<open>_emitter.emit(kEdgeCreate, edge)\<close>: every \<^verbatim>\<open>checkEdge\<close> closure registered at
  that moment runs once; one that matches unsubscribes itself and resolves its promise.
\<close>

definition edge_matches :: "ChannelEdge \<Rightarrow> string \<Rightarrow> bool" where
  "edge_matches e d \<longleftrightarrow> edge_id e = d \<or> d \<in> set (channelIds e)"

definition emit_edgeCreate :: "Channel \<Rightarrow> ChannelEdge \<Rightarrow> Channel \<times> effect list" where
  "emit_edgeCreate c e =
     (c\<lparr>edgeWaiters := filter (\<lambda>(d, h). \<not> edge_matches e d) (edgeWaiters c)\<rparr>,
      map (\<lambda>(d, h). ResolveEdge h (edge_id e))
        (filter (\<lambda>(d, h). edge_matches e d) (edgeWaiters c)))"

text \<open>The tail of \<^verbatim>\<open>_handleHandshake\<close> after the edge table has changed.\<close>

definition topology_changed :: "Channel \<Rightarrow> ChannelEdge \<Rightarrow> Channel \<times> effect list" where
  "topology_changed c e =
     (let (c1, fx) = emit_edgeCreate c e in (c1, fx @ handshakeAll c1))"

definition handleHandshake :: "Channel \<Rightarrow> pipe \<Rightarrow> ChannelEdge \<Rightarrow> Channel \<times> effect list" where
  "handleHandshake c p e =
     (if chan_id c = edge_id e then (c, [])
      else
        let lg = (if logger c then [LogHandshake (edge_id e) (chan_id c) (channelIds e)] else [])
        in case map_of (edges c) (edge_id e) of
             Some prevEdge \<Rightarrow>
               let newEdgeIds0 = filter (\<lambda>edgeId. edgeId \<notin> set (channelIds prevEdge)) (channelIds e);
                   newEdgeIds = (if chan_id c \<in> set newEdgeIds0
                                 then remove1 (chan_id c) newEdgeIds0 else newEdgeIds0)
               in if newEdgeIds = [] then (c, lg)
                  else
                    let (c1, fx) = topology_changed
                          (c\<lparr>edges := map_set (edges c) (edge_id e)
                                (e\<lparr>channelIds := channelIds prevEdge @ newEdgeIds\<rparr>)\<rparr>) e
                    in (c1, lg @ fx)
           | None \<Rightarrow>
               let edgeIds = filter (\<lambda>edgeId. edgeId \<noteq> chan_id c) (channelIds e);
                   (c1, fx) = topology_changed
                     (c\<lparr>edges := map_set (edges c) (edge_id e) (e\<lparr>channelIds := edgeIds\<rparr>),
                        edgePipes := (edgePipes c)(edge_id e \<mapsto> p)\<rparr>) e
               in (c1, lg @ fx))"

section \<open>Messages: routing, events, calls\<close>

text \<open>
  JavaScript truthiness of an optional string: \<^verbatim>\<open>undefined\<close>, \<^verbatim>\<open>null\<close> and the
  empty string are falsy. It decides \<^verbatim>\<open>!message.nonce\<close>, \<^verbatim>\<open>!edgeId\<close> in
  \<^verbatim>\<open>_emitMessage\<close> and \<^verbatim>\<open>if (edgeId)\<close> in \<^verbatim>\<open>waitForEdge\<close>.
\<close>

fun truthy :: "string option \<Rightarrow> bool" where
  "truthy None = False"
| "truthy (Some s) = (s \<noteq> [])"

definition emitMessage :: "Channel \<Rightarrow> ChannelMessageOut \<Rightarrow> effect list" where
  "emitMessage c m =
     (let edgeId = findEdgeId c (destination m)
      in if \<not> truthy edgeId then []
         else case edgePipes c (the edgeId) of
                None \<Rightarrow> []
              | Some p \<Rightarrow> [EmitMessage p m])"

text \<open>
  \<^verbatim>\<open>_emitter.emit(message.name, message.data)\<close>: the listeners under that name are
  called in registration order, and the \<^verbatim>\<open>once\<close> ones are removed.
\<close>

definition emit_event :: "Channel \<Rightarrow> string \<Rightarrow> jsval \<Rightarrow> Channel \<times> effect list" where
  "emit_event c n d =
     (c\<lparr>listeners := filter (\<lambda>(n', f, once). \<not> (n' = n \<and> once)) (listeners c)\<rparr>,
      map (\<lambda>(n', f, once). CallListener f d) (filter (\<lambda>(n', f, once). n' = n) (listeners c)))"

text \<open>
  The closure \<^verbatim>\<open>call\<close> stores in \<^verbatim>\<open>_callbacks\<close> under \<open>n\<close>, for the promise and
  timer \<open>h\<close>.
\<close>

definition run_callback :: "Channel \<Rightarrow> string \<Rightarrow> nat \<Rightarrow> jsval \<Rightarrow> Channel \<times> effect list" where
  "run_callback c n h d =
     (c\<lparr>callbacks := (callbacks c)(n := None)\<rparr>,
      [ClearTimeout h, if instanceof_Error d then Reject h d else Resolve h d])"

text \<open>The timer function \<^verbatim>\<open>call\<close> passes to \<^verbatim>\<open>setTimeout\<close>, when it fires.\<close>

definition timeout_fires :: "Channel \<Rightarrow> string \<Rightarrow> nat \<Rightarrow> Channel \<times> effect list" where
  "timeout_fires c n h =
     (c\<lparr>callbacks := (callbacks c)(n := None)\<rparr>, [Reject h (DErr ''Call timed out'')])"

definition handleMessage :: "Channel \<Rightarrow> pipe \<Rightarrow> ChannelMessageOut \<Rightarrow> Channel \<times> effect list" where
  "handleMessage c p m =
     (if proxiedBy m = Some (chan_id c) then (c, [])
      else if destination m \<noteq> chan_id c
        then (c, emitMessage c (m\<lparr>proxiedBy := Some (chan_id c)\<rparr>))
      else if \<not> truthy (nonce m) then emit_event c (name m) (data m)
      else case callbacks c (the (nonce m)) of
             Some h \<Rightarrow> run_callback c (the (nonce m)) h (data m)
           | None \<Rightarrow>
               (case callers c (name m) of
                  Some caller \<Rightarrow> (c, [InvokeCaller m (caller (data m))])
                | None \<Rightarrow> (c, [])))"

text \<open>
  The promise chain \<^verbatim>\<open>.catch(...).then(...)\<close> on the caller's promise, run when that
  promise has settled with \<open>out\<close>, on the state the channel has by then.
\<close>

definition callerSettled :: "Channel \<Rightarrow> ChannelMessageOut \<Rightarrow> outcome \<Rightarrow> effect list" where
  "callerSettled c m out =
     (case out of
        Returns v \<Rightarrow>
          emitMessage c \<lparr>name = name m, destination = source m, data = v,
                         source = chan_id c, proxiedBy = None, nonce = nonce m\<rparr>
      | Throws err \<Rightarrow>
          ConsoleError err #
          emitMessage c \<lparr>name = name m, destination = source m, data = DErr (error_message err),
                         source = chan_id c, proxiedBy = None, nonce = nonce m\<rparr>)"

definition waitForEdge :: "Channel \<Rightarrow> string \<Rightarrow> nat \<Rightarrow> Channel \<times> effect list" where
  "waitForEdge c d h =
     (let edgeId = findEdgeId c d
      in if truthy edgeId then (c, [ResolveEdge h (the edgeId)])
         else (c\<lparr>edgeWaiters := edgeWaiters c @ [(d, h)]\<rparr>, []))"

definition send :: "Channel \<Rightarrow> ChannelMessageIn \<Rightarrow> effect list" where
  "send c md =
     emitMessage c \<lparr>name = name_in md, destination = destination_in md, data = data_in md,
                    source = chan_id c, proxiedBy = None, nonce = None\<rparr>"

text \<open>
  \<^verbatim>\<open>call\<close>. \<open>n\<close> is what \<^verbatim>\<open>createNonce()\<close> returned (\<^verbatim>\<open>Math.random\<close> is the
  environment's), \<open>h\<close> names the new promise and its timer. The promise executor runs
  first (\<open>call_register\<close>: \<^verbatim>\<open>setTimeout\<close>, then \<^verbatim>\<open>_callbacks.set\<close>), then
  \<^verbatim>\<open>_emitMessage\<close> on the state the executor left.
\<close>

definition call_register :: "Channel \<Rightarrow> string \<Rightarrow> nat \<Rightarrow> nat \<Rightarrow> Channel \<times> effect list" where
  "call_register c n h timeout =
     (c\<lparr>callbacks := (callbacks c)(n \<mapsto> h)\<rparr>, [SetTimeout h timeout])"

definition call_message :: "Channel \<Rightarrow> ChannelMessageIn \<Rightarrow> string \<Rightarrow> ChannelMessageOut" where
  "call_message c md n =
     \<lparr>name = name_in md, destination = destination_in md, data = data_in md,
      source = chan_id c, proxiedBy = None, nonce = Some n\<rparr>"

definition call :: "Channel \<Rightarrow> ChannelMessageIn \<Rightarrow> nat \<Rightarrow> string \<Rightarrow> nat \<Rightarrow> Channel \<times> effect list" where
  "call c md timeout n h =
     (let (c1, fx) = call_register c n h timeout
      in (c1, fx @ emitMessage c1 (call_message c1 md n)))"

text \<open>\<^verbatim>\<open>opts: { timeout: number } = { timeout: 10000 }\<close>\<close>

definition default_timeout :: nat where
  "default_timeout = 10000"

definition call_default :: "Channel \<Rightarrow> ChannelMessageIn \<Rightarrow> string \<Rightarrow> nat \<Rightarrow> Channel \<times> effect list" where
  "call_default c md n h = call c md default_timeout n h"

definition on :: "Channel \<Rightarrow> string \<Rightarrow> nat \<Rightarrow> Channel" where
  "on c n f = c\<lparr>listeners := listeners c @ [(n, f, False)]\<rparr>"

definition once :: "Channel \<Rightarrow> string \<Rightarrow> nat \<Rightarrow> Channel" where
  "once c n f = c\<lparr>listeners := listeners c @ [(n, f, True)]\<rparr>"

text \<open>\<^verbatim>\<open>off(name, fn?)\<close>: without \<^verbatim>\<open>fn\<close> every listener of the name goes.\<close>

definition off :: "Channel \<Rightarrow> string \<Rightarrow> nat option \<Rightarrow> Channel" where
  "off c n fo =
     c\<lparr>listeners := filter (\<lambda>(n', f, once). \<not> (n' = n \<and> (fo = None \<or> fo = Some f))) (listeners c)\<rparr>"

definition onCall :: "Channel \<Rightarrow> string \<Rightarrow> (jsval \<Rightarrow> outcome) \<Rightarrow> Channel" where
  "onCall c n caller = c\<lparr>callers := (callers c)(n \<mapsto> caller)\<rparr>"

definition removeCaller :: "Channel \<Rightarrow> Channel" where
  "removeCaller c = c"

definition destroy :: "Channel \<Rightarrow> Channel" where
  "destroy c =
     c\<lparr>listeners := [], edgeWaiters := [],
       callbacks := Map.empty,
       callers := Map.empty,
       edgePipes := Map.empty,
       pipes := [],
       destroyed := True\<rparr>"

section \<open>\<^verbatim>\<open>RemoteHost\<close> and \<^verbatim>\<open>RemoteClient\<close>\<close>

text \<open>
  \<^verbatim>\<open>async (input: unknown[]) => await fn(...input)\<close>: the handler \<^verbatim>\<open>RemoteHost\<close>
  registers spreads the message data into the arguments of \<^verbatim>\<open>fn\<close>. Spreading a
  value that is not iterable throws a \<^verbatim>\<open>TypeError\<close>, whose text is the engine's.
\<close>

definition spread_call :: "(jsval list \<Rightarrow> outcome) \<Rightarrow> jsval \<Rightarrow> outcome" where
  "spread_call fn input =
     (case input of
        DArr args \<Rightarrow> fn args
      | DStr s \<Rightarrow> fn (map (\<lambda>ch. DStr [ch]) s)
      | _ \<Rightarrow> Throws (ThrownError ''input is not iterable''))"

text \<open>The constructor of \<^verbatim>\<open>RemoteHost\<close>; \<open>spec\<close> is \<^verbatim>\<open>Object.entries(spec)\<close>.\<close>

definition RemoteHost ::
  "Channel \<Rightarrow> (string \<times> (jsval list \<Rightarrow> outcome)) list \<Rightarrow> Channel \<times> effect list" where
  "RemoteHost c spec =
     (let c1 = fold (\<lambda>(n, fn) ch. onCall ch n (spread_call fn)) spec c
      in (c1, handshakeAll c1))"

record RemoteClient =
  hostName :: string
  channel :: Channel

definition connect :: "RemoteClient \<Rightarrow> nat \<Rightarrow> Channel \<times> effect list" where
  "connect cl h = waitForEdge (channel cl) (hostName cl) h"

definition run ::
  "RemoteClient \<Rightarrow> string \<Rightarrow> jsval list \<Rightarrow> string \<Rightarrow> nat \<Rightarrow> Channel \<times> effect list" where
  "run cl n args nc h =
     call_default (channel cl)
       \<lparr>name_in = n, destination_in = hostName cl, data_in = DArr args\<rparr> nc h"

section \<open>Channels wired by point-to-point pipes\<close>

text \<open>
  A network of channels joined by asynchronous pipes of the kind \<^verbatim>\<open>worker.ts\<close> builds
  (\<^verbatim>\<open>postMessage\<close> one way, a \<^verbatim>\<open>message\<close> listener the other): what one end emits
  is queued and later handed to the listener the channel at the other end subscribed in
  \<^verbatim>\<open>addPipe\<close>. \<open>wires\<close> gives, for a pipe, the channel at its far end and that
  channel's own pipe object. Tasks run one at a time, oldest first; the continuation of
  a caller's promise is a task of its own. Every pipe is attached with \<^verbatim>\<open>addPipe\<close>
  before anything is emitted on it.
\<close>

datatype task =
    DeliverHandshake string pipe ChannelEdge
  | DeliverMessage string pipe ChannelMessageOut
  | SettleCaller string ChannelMessageOut outcome

record net =
  nodes :: "(string \<times> Channel) list"
  wires :: "(pipe \<times> string \<times> pipe) list"
  queue :: "task list"

fun route :: "(pipe \<times> string \<times> pipe) list \<Rightarrow> string \<Rightarrow> effect \<Rightarrow> task list" where
  "route ws owner (EmitHandshake p e) =
     (case map_of ws p of Some (o', p') \<Rightarrow> [DeliverHandshake o' p' e] | None \<Rightarrow> [])"
| "route ws owner (EmitMessage p m) =
     (case map_of ws p of Some (o', p') \<Rightarrow> [DeliverMessage o' p' m] | None \<Rightarrow> [])"
| "route ws owner (InvokeCaller m out) = [SettleCaller owner m out]"
| "route ws owner fx = []"

text \<open>
  Run a method on the channel called \<open>owner\<close>; what it emits on pipes joins the
  queue, and everything it did is reported with the channel's name.
\<close>

definition net_do ::
  "string \<Rightarrow> (Channel \<Rightarrow> Channel \<times> effect list) \<Rightarrow> net \<Rightarrow> net \<times> (string \<times> effect) list" where
  "net_do owner f w =
     (case map_of (nodes w) owner of
        None \<Rightarrow> (w, [])
      | Some c \<Rightarrow>
          let (c1, fx) = f c
          in (w\<lparr>nodes := map_set (nodes w) owner c1,
                queue := queue w @ concat (map (route (wires w) owner) fx)\<rparr>,
              map (Pair owner) fx))"

fun run_task :: "task \<Rightarrow> net \<Rightarrow> net \<times> (string \<times> effect) list" where
  "run_task (DeliverHandshake owner p e) w = net_do owner (\<lambda>c. handleHandshake c p e) w"
| "run_task (DeliverMessage owner p m) w = net_do owner (\<lambda>c. handleMessage c p m) w"
| "run_task (SettleCaller owner m out) w = net_do owner (\<lambda>c. (c, callerSettled c m out)) w"

definition net_step :: "net \<Rightarrow> net \<times> (string \<times> effect) list" where
  "net_step w =
     (case queue w of
        [] \<Rightarrow> (w, [])
      | t # ts \<Rightarrow> run_task t (w\<lparr>queue := ts\<rparr>))"

fun run_net :: "nat \<Rightarrow> net \<Rightarrow> net \<times> (string \<times> effect) list" where
  "run_net 0 w = (w, [])"
| "run_net (Suc k) w =
     (let (w1, tr1) = net_step w; (w2, tr2) = run_net k w1 in (w2, tr1 @ tr2))"

definition then_do ::
  "net \<times> (string \<times> effect) list \<Rightarrow> (net \<Rightarrow> net \<times> (string \<times> effect) list)
     \<Rightarrow> net \<times> (string \<times> effect) list" where
  "then_do r f = (let (w1, tr1) = r; (w2, tr2) = f w1 in (w2, tr1 @ tr2))"

subsection \<open>Three channels in a line\<close>

text \<open>
  Channels A, B and C; pipe 0 (at A) and pipe 1 (at B) are the two ends of one
  connection, pipe 2 (at B) and pipe 3 (at C) of the other. A \<^verbatim>\<open>RemoteHost\<close> on C
  serves \<^verbatim>\<open>ping\<close>, a \<^verbatim>\<open>RemoteClient\<close> on A connects to C and, once the queue is
  empty, runs \<^verbatim>\<open>ping\<close> with the argument 1.
\<close>

text \<open>
  \<^verbatim>\<open>async (input) => input + 1\<close> on a number. The scenario passes nothing else; for
  other arguments, where JavaScript would coerce, the model answers \<^verbatim>\<open>undefined\<close>.
\<close>

fun ping :: "jsval list \<Rightarrow> outcome" where
  "ping (DNum i # rest) = Returns (DNum (i + 1))"
| "ping args = Returns DUndefined"

definition line_wires :: "(pipe \<times> string \<times> pipe) list" where
  "line_wires = [(0, ''B'', 1), (1, ''A'', 0), (2, ''C'', 3), (3, ''B'', 2)]"

definition line_created :: net where
  "line_created =
     \<lparr>nodes = [(''A'', new_Channel ''A''), (''B'', new_Channel ''B''), (''C'', new_Channel ''C'')],
      wires = line_wires, queue = []\<rparr>"

definition line_wired :: "net \<times> (string \<times> effect) list" where
  "line_wired =
     then_do (then_do (then_do (net_do ''A'' (\<lambda>c. addPipe c 0) line_created)
       (net_do ''B'' (\<lambda>c. addPipe c 1)))
       (net_do ''B'' (\<lambda>c. addPipe c 2)))
       (net_do ''C'' (\<lambda>c. addPipe c 3))"

definition line_hosted :: "net \<times> (string \<times> effect) list" where
  "line_hosted =
     then_do (then_do line_wired (net_do ''C'' (\<lambda>c. RemoteHost c [(''ping'', ping)])))
       (net_do ''A'' (\<lambda>c. connect \<lparr>hostName = ''C'', channel = c\<rparr> 7))"

text \<open>Ten tasks empty the queue of handshakes.\<close>

definition line_settled :: "net \<times> (string \<times> effect) list" where
  "line_settled = then_do line_hosted (run_net 10)"

definition line_called :: "net \<times> (string \<times> effect) list" where
  "line_called =
     then_do line_settled
       (net_do ''A'' (\<lambda>c. run \<lparr>hostName = ''C'', channel = c\<rparr> ''ping'' [DNum 1] ''n1'' 8))"

text \<open>The state \<open>j\<close> tasks after the call was issued, and everything done until then.\<close>

definition line_after :: "nat \<Rightarrow> net \<times> (string \<times> effect) list" where
  "line_after j = then_do line_called (run_net j)"

section \<open>The edge table's invariant\<close>

text \<open>
  One edge per peer id, stored under its own id, and no edge lists the channel's own id
  among the ids reachable through the peer.
\<close>

definition edges_keyed :: "Channel \<Rightarrow> bool" where
  "edges_keyed c \<longleftrightarrow>
     distinct (map fst (edges c)) \<and> list_all (\<lambda>(k, e). edge_id e = k) (edges c)"

definition edges_exclude_self :: "Channel \<Rightarrow> bool" where
  "edges_exclude_self c \<longleftrightarrow> list_all (\<lambda>(k, e). chan_id c \<notin> set (channelIds e)) (edges c)"

text \<open>The ids recorded for peer \<open>k\<close> (none when the peer is unknown).\<close>

definition reachable_through :: "Channel \<Rightarrow> string \<Rightarrow> string set" where
  "reachable_through c k = (case map_of (edges c) k of None \<Rightarrow> {} | Some e \<Rightarrow> set (channelIds e))"

text \<open>
  The \<^verbatim>\<open>newEdgeIds\<close> that \<^verbatim>\<open>_handleHandshake\<close> computes for a known peer: the
  announced ids not yet recorded, with one occurrence of the channel's own id spliced out.
\<close>

definition new_ids :: "Channel \<Rightarrow> ChannelEdge \<Rightarrow> ChannelEdge \<Rightarrow> string list" where
  "new_ids c prev e =
     (let n0 = filter (\<lambda>edgeId. edgeId \<notin> set (channelIds prev)) (channelIds e)
      in if chan_id c \<in> set n0 then remove1 (chan_id c) n0 else n0)"

section \<open>Observing the three channels\<close>

text \<open>A \<^verbatim>\<open>call\<close> promise settles: it resolves or it rejects.\<close>

fun is_settle :: "effect \<Rightarrow> bool" where
  "is_settle (Resolve h v) = True"
| "is_settle (Reject h v) = True"
| "is_settle x = False"

definition node :: "net \<Rightarrow> string \<Rightarrow> Channel option" where
  "node w i = map_of (nodes w) i"

text \<open>
  The response of C to the call of A, as B forwards it (stamped by B, on its way to C)
  and as C forwards it (stamped by C, on its way to B).
\<close>

definition bounce_to_C :: ChannelMessageOut where
  "bounce_to_C =
     \<lparr>name = ''ping'', destination = ''A'', data = DNum 2, source = ''C'',
      proxiedBy = Some ''B'', nonce = Some ''n1''\<rparr>"

definition bounce_to_B :: ChannelMessageOut where
  "bounce_to_B =
     \<lparr>name = ''ping'', destination = ''A'', data = DNum 2, source = ''C'',
      proxiedBy = Some ''C'', nonce = Some ''n1''\<rparr>"

text \<open>
  The channels are those of \<open>w0\<close>, and the only task queued is the delivery of the
  message \<open>m\<close> to C with the stamp of B, or to B with the stamp of C.
\<close>

definition bounces :: "net \<Rightarrow> ChannelMessageOut \<Rightarrow> net \<Rightarrow> bool" where
  "bounces w0 m w \<longleftrightarrow>
     nodes w = nodes w0 \<and> wires w = line_wires
     \<and> (queue w = [DeliverMessage ''C'' 3 (m\<lparr>proxiedBy := Some ''B''\<rparr>)]
        \<or> queue w = [DeliverMessage ''B'' 2 (m\<lparr>proxiedBy := Some ''C''\<rparr>)])"

text \<open>B sends what is for A to C, and C sends what is for A to B.\<close>

definition line_misroutes :: "net \<Rightarrow> bool" where
  "line_misroutes w \<longleftrightarrow>
     (case node w ''C'' of
        None \<Rightarrow> False
      | Some c \<Rightarrow> chan_id c = ''C'' \<and> findEdgeId c ''A'' = Some ''B'' \<and> edgePipes c ''B'' = Some 3)
     \<and> (case node w ''B'' of
          None \<Rightarrow> False
        | Some c \<Rightarrow> chan_id c = ''B'' \<and> findEdgeId c ''A'' = Some ''C'' \<and> edgePipes c ''C'' = Some 2)"

subsection \<open>The same line with a handler that fails\<close>

text \<open>
  \<^verbatim>\<open>async () => { throw new Error('kaput') }\<close>, served by the \<^verbatim>\<open>RemoteHost\<close> on C
  under the name \<^verbatim>\<open>boom\<close>; the client on A runs it with no arguments once the
  handshakes have settled.
\<close>

fun boom :: "jsval list \<Rightarrow> outcome" where
  "boom args = Throws (ThrownError ''kaput'')"

definition fail_hosted :: "net \<times> (string \<times> effect) list" where
  "fail_hosted =
     then_do (then_do line_wired (net_do ''C'' (\<lambda>c. RemoteHost c [(''boom'', boom)])))
       (net_do ''A'' (\<lambda>c. connect \<lparr>hostName = ''C'', channel = c\<rparr> 7))"

definition fail_settled :: "net \<times> (string \<times> effect) list" where
  "fail_settled = then_do fail_hosted (run_net 10)"

definition fail_called :: "net \<times> (string \<times> effect) list" where
  "fail_called =
     then_do fail_settled
       (net_do ''A'' (\<lambda>c. run \<lparr>hostName = ''C'', channel = c\<rparr> ''boom'' [] ''n1'' 8))"

definition fail_after :: "nat \<Rightarrow> net \<times> (string \<times> effect) list" where
  "fail_after j = then_do fail_called (run_net j)"

text \<open>The response that carries the failure, as C sends it.\<close>

definition kaput_response :: ChannelMessageOut where
  "kaput_response =
     \<lparr>name = ''boom'', destination = ''A'', data = DErr ''kaput'', source = ''C'',
      proxiedBy = None, nonce = Some ''n1''\<rparr>"

section \<open>Every operation of a channel\<close>

text \<open>
  The methods of \<^verbatim>\<open>Channel\<close> and the closures it leaves with the environment (the
  listeners of \<^verbatim>\<open>addPipe\<close>, the timer of \<^verbatim>\<open>call\<close>, the continuation of a caller's
  promise), as one step function. \<^verbatim>\<open>getEdge\<close>, \<^verbatim>\<open>findEdgeId\<close> and
  \<^verbatim>\<open>createNonce\<close> only read.
\<close>

datatype operation =
    AddPipe pipe
  | SetLogger
  | HandleHandshake pipe ChannelEdge
  | HandleMessage pipe ChannelMessageOut
  | CallerSettled ChannelMessageOut outcome
  | WaitForEdge string nat
  | Send ChannelMessageIn
  | Call ChannelMessageIn nat string nat
  | TimeoutFires string nat
  | On string nat
  | Once string nat
  | Off string "nat option"
  | OnCall string "jsval \<Rightarrow> outcome"
  | RemoveCaller
  | HandshakeAll
  | Destroy

fun perform :: "Channel \<Rightarrow> operation \<Rightarrow> Channel \<times> effect list" where
  "perform c (AddPipe p) = addPipe c p"
| "perform c SetLogger = (setLogger c, [])"
| "perform c (HandleHandshake p e) = handleHandshake c p e"
| "perform c (HandleMessage p m) = handleMessage c p m"
| "perform c (CallerSettled m out) = (c, callerSettled c m out)"
| "perform c (WaitForEdge d h) = waitForEdge c d h"
| "perform c (Send md) = (c, send c md)"
| "perform c (Call md t n h) = call c md t n h"
| "perform c (TimeoutFires n h) = timeout_fires c n h"
| "perform c (On n f) = (on c n f, [])"
| "perform c (Once n f) = (once c n f, [])"
| "perform c (Off n fo) = (off c n fo, [])"
| "perform c (OnCall n caller) = (onCall c n caller, [])"
| "perform c RemoveCaller = (removeCaller c, [])"
| "perform c HandshakeAll = (c, handshakeAll c)"
| "perform c Destroy = (destroy c, [])"

text \<open>
  \<^verbatim>\<open>channelIds\<close> is documented as the set of channels the other channel knows about:
  a handshake names no id twice.
\<close>

fun announces_a_set :: "operation \<Rightarrow> bool" where
  "announces_a_set (HandleHandshake p e) = distinct (channelIds e)"
| "announces_a_set x = True"

section \<open>Pipes that call back inside \<^verbatim>\<open>emit\<close>\<close>

text \<open>
  \<^verbatim>\<open>pipe.emit\<close> is the pipe's code. A pipe of a \<^verbatim>\<open>ChannelPort\<close> calls, inside
  \<^verbatim>\<open>_emit\<close>, the listeners of the port's other pipes, and whatever those emit on their
  own pipes before they return reaches this channel's listener while the channel is
  still inside its own \<^verbatim>\<open>emit\<close>. For such pipes \<open>sp p m\<close> lists, in order, the
  messages (with the pipe each arrives on) that this channel's message listener is
  given before \<^verbatim>\<open>p.emit('vapIpc:message', m)\<close> returns. Each runs
  \<^verbatim>\<open>_handleMessage\<close> on the state the channel has at that moment, and what that emits
  is treated the same way. The number bounds the depth of nested listener calls;
  \<open>None\<close> is a call stack that ran out.
\<close>

type_synonym sync_pipes = "pipe \<Rightarrow> ChannelMessageOut \<Rightarrow> (pipe \<times> ChannelMessageOut) list"

fun deliver_sync ::
    "nat \<Rightarrow> sync_pipes \<Rightarrow> Channel \<Rightarrow> (pipe \<times> ChannelMessageOut) list
       \<Rightarrow> (Channel \<times> effect list) option"
  and emit_sync ::
    "nat \<Rightarrow> sync_pipes \<Rightarrow> Channel \<Rightarrow> effect list \<Rightarrow> (Channel \<times> effect list) option"
where
  "deliver_sync k sp c [] = Some (c, [])"
| "deliver_sync 0 sp c ((q, r) # ds) = None"
| "deliver_sync (Suc k) sp c ((q, r) # ds) =
     (let (c1, fx) = handleMessage c q r
      in case emit_sync k sp c1 fx of
           None \<Rightarrow> None
         | Some (c2, fx2) \<Rightarrow>
             (case deliver_sync (Suc k) sp c2 ds of
                None \<Rightarrow> None
              | Some (c3, fx3) \<Rightarrow> Some (c3, fx2 @ fx3)))"
| "emit_sync k sp c [] = Some (c, [])"
| "emit_sync k sp c (EmitMessage p m # xs) =
     (case deliver_sync k sp c (sp p m) of
        None \<Rightarrow> None
      | Some (c1, fx1) \<Rightarrow>
          (case emit_sync k sp c1 xs of
             None \<Rightarrow> None
           | Some (c2, fx2) \<Rightarrow> Some (c2, EmitMessage p m # fx1 @ fx2)))"
| "emit_sync k sp c (x # xs) =
     (case emit_sync k sp c xs of
        None \<Rightarrow> None
      | Some (c2, fx2) \<Rightarrow> Some (c2, x # fx2))"

text \<open>
  \<^verbatim>\<open>call\<close> over such pipes: the promise executor, then \<^verbatim>\<open>_emitMessage\<close>, inside
  which the pipe may call back.
\<close>

definition call_sync ::
  "nat \<Rightarrow> sync_pipes \<Rightarrow> Channel \<Rightarrow> ChannelMessageIn \<Rightarrow> nat \<Rightarrow> string \<Rightarrow> nat
     \<Rightarrow> (Channel \<times> effect list) option" where
  "call_sync k sp c md timeout n h =
     (let (c1, fx) = call_register c n h timeout
      in case emit_sync k sp c1 (emitMessage c1 (call_message c1 md n)) of
           None \<Rightarrow> None
         | Some (c2, fx2) \<Rightarrow> Some (c2, fx @ fx2))"

text \<open>A pipe that never calls back before \<^verbatim>\<open>emit\<close> returns, as a worker's is.\<close>

definition async_pipes :: sync_pipes where
  "async_pipes p m = []"


section \<open>Facts about the list helpers\<close>

lemma indexOf_mem:
  "x \<in> set xs \<Longrightarrow>
     0 \<le> indexOf xs x \<and> nat (indexOf xs x) < length xs \<and> xs ! nat (indexOf xs x) = x"
  by (induction xs) (auto simp: Let_def nat_add_distrib)

lemma set_first_occurrences: "set (first_occurrences xs) = set xs"
proof
  show "set (first_occurrences xs) \<subseteq> set xs"
    by (auto simp: first_occurrences_def in_set_enumerate_eq)
next
  show "set xs \<subseteq> set (first_occurrences xs)"
  proof
    fix x assume x: "x \<in> set xs"
    from indexOf_mem [OF x]
    have "(nat (indexOf xs x), x) \<in> set (enumerate 0 xs)"
      by (simp add: in_set_enumerate_eq)
    moreover have "indexOf xs x = int (nat (indexOf xs x))"
      using indexOf_mem [OF x] by simp
    ultimately show "x \<in> set (first_occurrences xs)"
      unfolding first_occurrences_def by force
  qed
qed

lemma distinct_first_occurrences: "distinct (first_occurrences xs)"
  unfolding first_occurrences_def
  by (rule distinct_map [THEN iffD2]) (auto simp: inj_on_def)

lemma findEdge_loop_Some:
  "(findEdge_loop es d \<noteq> None) \<longleftrightarrow>
     (\<exists>(k, e) \<in> set es. edge_id e = d \<or> d \<in> set (channelIds e))"
  by (induction es d rule: findEdge_loop.induct) auto

text \<open>
  What \<^verbatim>\<open>getEdge\<close> announces is exactly what \<^verbatim>\<open>findEdgeId\<close> can route to, and it
  announces no id twice.
\<close>

lemma getEdge_reachable:
  assumes "edges_keyed c"
  shows "set (channelIds (getEdge c)) = {d. findEdgeId c d \<noteq> None}"
proof -
  from assms have k: "\<And>k e. (k, e) \<in> set (edges c) \<Longrightarrow> edge_id e = k"
    by (auto simp: edges_keyed_def list_all_iff)
  show ?thesis
    unfolding getEdge_def findEdgeId_def findEdge_loop_Some
    by (auto simp: set_first_occurrences dest: k) (use k in force)+
qed

lemma getEdge_distinct: "distinct (channelIds (getEdge c))"
  by (simp add: getEdge_def distinct_first_occurrences)

section \<open>Messages with a nonce nobody is waiting for\<close>

text \<open>
  Claim C1, as the code has it. A message addressed to this channel that carries a
  nonce (a non-empty one: the code tests \<^verbatim>\<open>!message.nonce\<close>) for which no call is
  pending is dropped, with no change of state and nothing invoked or emitted, when no
  handler is registered under the message's name.
\<close>

theorem unknown_nonce_without_handler_is_dropped:
  assumes "truthy (nonce m)"
    and "destination m = chan_id c"
    and "callbacks c (the (nonce m)) = None"
    and "callers c (name m) = None"
  shows "handleMessage c p m = (c, [])"
  using assms by (simp add: handleMessage_def)

theorem unknown_nonce_without_handler_is_dropped_witness:
  "handleMessage (new_Channel ''A'') 0
     \<lparr>name = ''ping'', destination = ''A'', data = DNum 2, source = ''B'',
      proxiedBy = None, nonce = Some ''n1''\<rparr>
   = (new_Channel ''A'', [])"
  by (rule unknown_nonce_without_handler_is_dropped) (simp_all add: new_Channel_def)

text \<open>
  With a handler registered under the message's name the same message is taken for a
  call: the handler runs on the late response's payload.
\<close>

theorem unknown_nonce_with_handler_counterexample:
  "truthy (nonce \<lparr>name = ''ping'', destination = ''A'', data = DNum 2, source = ''B'',
                  proxiedBy = None, nonce = Some ''n1''\<rparr>)
   \<and> destination \<lparr>name = ''ping'', destination = ''A'', data = DNum 2, source = ''B'',
                   proxiedBy = None, nonce = Some ''n1''\<rparr>
       = chan_id (onCall (new_Channel ''A'') ''ping'' Returns)
   \<and> callbacks (onCall (new_Channel ''A'') ''ping'' Returns) ''n1'' = None
   \<and> snd (handleMessage (onCall (new_Channel ''A'') ''ping'' Returns) 0
        \<lparr>name = ''ping'', destination = ''A'', data = DNum 2, source = ''B'',
         proxiedBy = None, nonce = Some ''n1''\<rparr>)
       = [InvokeCaller
            \<lparr>name = ''ping'', destination = ''A'', data = DNum 2, source = ''B'',
             proxiedBy = None, nonce = Some ''n1''\<rparr>
            (Returns (DNum 2))]"
  by (simp add: handleMessage_def onCall_def new_Channel_def)

section \<open>Attaching a pipe\<close>

text \<open>
  Claim C2, as the code has it. \<^verbatim>\<open>addPipe(pipe)\<close> subscribes the channel to the
  handshake and message events of the pipe and appends the pipe to the channel's pipes;
  it emits nothing. The handshake that carries the channel's own id and the ids it can
  currently reach goes out on that pipe when \<^verbatim>\<open>handshakeAll()\<close> runs afterwards.
\<close>

theorem addPipe_subscribes_handshakeAll_announces:
  assumes "edges_keyed c"
  shows "Listen p HandshakeEv \<in> set (snd (addPipe c p))
       \<and> Listen p MessageEv \<in> set (snd (addPipe c p))
       \<and> (\<forall>q e. EmitHandshake q e \<notin> set (snd (addPipe c p)))
       \<and> (\<forall>q m. EmitMessage q m \<notin> set (snd (addPipe c p)))
       \<and> fst (addPipe c p) = c\<lparr>pipes := pipes c @ [p]\<rparr>
       \<and> EmitHandshake p (getEdge c) \<in> set (handshakeAll (fst (addPipe c p)))
       \<and> edge_id (getEdge c) = chan_id c
       \<and> set (channelIds (getEdge c)) = {d. findEdgeId c d \<noteq> None}"
  using getEdge_reachable [OF assms]
  by (simp add: addPipe_def handshakeAll_def emitHandshake_def getEdge_def)

theorem addPipe_subscribes_handshakeAll_announces_witness:
  "edges_keyed (new_Channel ''A'')
   \<and> Listen 0 HandshakeEv \<in> set (snd (addPipe (new_Channel ''A'') 0))
   \<and> Listen 0 MessageEv \<in> set (snd (addPipe (new_Channel ''A'') 0))
   \<and> EmitHandshake 0 (getEdge (new_Channel ''A''))
       \<in> set (handshakeAll (fst (addPipe (new_Channel ''A'') 0)))"
proof -
  have k: "edges_keyed (new_Channel ''A'')"
    by (simp add: edges_keyed_def new_Channel_def)
  from addPipe_subscribes_handshakeAll_announces [OF k, of 0] k show ?thesis
    by blast
qed

text \<open>On a new channel \<^verbatim>\<open>addPipe\<close> does the two subscriptions and nothing else.\<close>

theorem addPipe_emits_no_handshake_counterexample:
  "snd (addPipe (new_Channel ''A'') 0) = [Listen 0 HandshakeEv, Listen 0 MessageEv]
   \<and> EmitHandshake 0 (getEdge (new_Channel ''A'')) \<notin> set (snd (addPipe (new_Channel ''A'') 0))"
  by (simp add: addPipe_def new_Channel_def)

section \<open>Destroying a channel\<close>

text \<open>What \<^verbatim>\<open>destroy()\<close> empties, and what it leaves.\<close>

lemma destroy_clears:
  "callers (destroy c) = Map.empty \<and> callbacks (destroy c) = Map.empty
   \<and> edgePipes (destroy c) = Map.empty \<and> pipes (destroy c) = []
   \<and> listeners (destroy c) = [] \<and> edgeWaiters (destroy c) = []
   \<and> destroyed (destroy c) \<and> edges (destroy c) = edges c"
  by (simp add: destroy_def)

text \<open>
  Claim C3 at a channel A that has one pipe and has met the peer B on it: after
  \<^verbatim>\<open>destroy()\<close> the handler map, the pending-call map, the edge-to-pipe map and the
  pipes are empty, and the edge table still holds the edge of B.
\<close>

theorem destroy_leaves_edge_table:
  "edges (destroy (fst (handleHandshake (fst (addPipe (new_Channel ''A'') 0)) 0
            \<lparr>edge_id = ''B'', channelIds = []\<rparr>)))
     = [(''B'', \<lparr>edge_id = ''B'', channelIds = []\<rparr>)]
   \<and> edgePipes (destroy (fst (handleHandshake (fst (addPipe (new_Channel ''A'') 0)) 0
            \<lparr>edge_id = ''B'', channelIds = []\<rparr>))) ''B'' = None
   \<and> pipes (destroy (fst (handleHandshake (fst (addPipe (new_Channel ''A'') 0)) 0
            \<lparr>edge_id = ''B'', channelIds = []\<rparr>))) = []"
  by (simp add: destroy_def handleHandshake_def topology_changed_def emit_edgeCreate_def
      handshakeAll_def emitHandshake_def addPipe_def new_Channel_def)

section \<open>Routing one message\<close>

lemma emitMessage_routed:
  "findEdgeId c (destination m) = Some e \<Longrightarrow> e \<noteq> [] \<Longrightarrow> edgePipes c e = Some q \<Longrightarrow>
     emitMessage c m = [EmitMessage q m]"
  by (simp add: emitMessage_def)


lemma handleMessage_forward:
  assumes "destination m \<noteq> chan_id c" and "proxiedBy m \<noteq> Some (chan_id c)"
    and "findEdgeId c (destination m) = Some e" and "e \<noteq> []" and "edgePipes c e = Some q"
  shows "handleMessage c p m = (c, [EmitMessage q (m\<lparr>proxiedBy := Some (chan_id c)\<rparr>)])"
  using assms by (simp add: handleMessage_def emitMessage_def)





section \<open>Calls: registration, timeout, failure\<close>



text \<open>
  What the host and the caller do with a handler's failure, each on its own: the host
  invokes the handler and, when its promise has settled, logs the failure and hands
  \<^verbatim>\<open>_emitMessage\<close> a response that carries an \<^verbatim>\<open>Error\<close> with the failure's message;
  a caller that handles this response while the nonce is pending rejects with it.
\<close>

lemma host_answers_failure:
  assumes "destination m = chan_id hst" and "proxiedBy m \<noteq> Some (chan_id hst)"
    and "truthy (nonce m)" and "callbacks hst (the (nonce m)) = None"
    and "callers hst (name m) = Some f" and "f (data m) = Throws err"
  shows "handleMessage hst p m = (hst, [InvokeCaller m (Throws err)])
     \<and> callerSettled hst m (Throws err)
         = ConsoleError err #
           emitMessage hst \<lparr>name = name m, destination = source m,
                            data = DErr (error_message err), source = chan_id hst,
                            proxiedBy = None, nonce = nonce m\<rparr>"
  using assms by (auto simp: handleMessage_def callerSettled_def)

lemma caller_rejects_failure:
  assumes "destination r = chan_id cl" and "proxiedBy r \<noteq> Some (chan_id cl)"
    and "nonce r = Some n" and "n \<noteq> []" and "callbacks cl n = Some h"
    and "data r = DErr msg"
  shows "handleMessage cl q r
     = (cl\<lparr>callbacks := (callbacks cl)(n := None)\<rparr>, [ClearTimeout h, Reject h (DErr msg)])"
  using assms by (auto simp: handleMessage_def run_callback_def)

section \<open>A response that arrives inside \<^verbatim>\<open>emit\<close>\<close>

lemma emit_sync_async: "emit_sync k async_pipes c fx = Some (c, fx)"
proof (induction fx)
  case Nil
  show ?case by simp
next
  case (Cons x fx)
  then show ?case by (cases x) (simp_all add: async_pipes_def)
qed

text \<open>Over pipes that never call back, \<^verbatim>\<open>call\<close> is what it was above.\<close>

lemma call_sync_async: "call_sync k async_pipes c md t n h = Some (call c md t n h)"
  by (simp add: call_sync_def call_def emit_sync_async split: prod.splits)




section \<open>The edge table under handshakes\<close>

lemma map_of_map_set: "map_of (map_set xs k v) = (map_of xs)(k \<mapsto> v)"
  by (induction xs k v rule: map_set.induct) auto

lemma keys_map_set: "set (map fst (map_set xs k v)) = insert k (set (map fst xs))"
  by (induction xs k v rule: map_set.induct) auto

lemma distinct_map_set: "distinct (map fst xs) \<Longrightarrow> distinct (map fst (map_set xs k v))"
  by (induction xs k v rule: map_set.induct) (auto simp: keys_map_set [simplified])

lemma list_all_map_set:
  "list_all P xs \<Longrightarrow> P (k, v) \<Longrightarrow> list_all P (map_set xs k v)"
  by (induction xs k v rule: map_set.induct) auto

lemma edges_handleHandshake:
  "edges (fst (handleHandshake c p e)) =
     (if chan_id c = edge_id e then edges c
      else case map_of (edges c) (edge_id e) of
             Some prev \<Rightarrow>
               if new_ids c prev e = [] then edges c
               else map_set (edges c) (edge_id e) (e\<lparr>channelIds := channelIds prev @ new_ids c prev e\<rparr>)
           | None \<Rightarrow>
               map_set (edges c) (edge_id e)
                 (e\<lparr>channelIds := filter (\<lambda>edgeId. edgeId \<noteq> chan_id c) (channelIds e)\<rparr>))"
  by (simp add: handleHandshake_def topology_changed_def emit_edgeCreate_def new_ids_def Let_def
      split: option.splits)

lemma chan_id_handleHandshake: "chan_id (fst (handleHandshake c p e)) = chan_id c"
  by (simp add: handleHandshake_def topology_changed_def emit_edgeCreate_def Let_def
      split: option.splits)

lemma handleHandshake_keeps_keys:
  "edges_keyed c \<Longrightarrow> edges_keyed (fst (handleHandshake c p e))"
  unfolding edges_keyed_def edges_handleHandshake
  by (auto simp: distinct_map_set list_all_map_set split: option.splits)

lemma handleHandshake_grows:
  "reachable_through c k \<subseteq> reachable_through (fst (handleHandshake c p e)) k"
  unfolding reachable_through_def edges_handleHandshake
  by (auto simp: map_of_map_set split: option.splits)

lemma handleHandshake_excludes_self:
  assumes "edges_exclude_self c" and "distinct (channelIds e)"
  shows "edges_exclude_self (fst (handleHandshake c p e))"
proof -
  have self_gone: "chan_id c \<notin> set (new_ids c prev e)" for prev
    using assms(2) by (auto simp: new_ids_def Let_def)
  have prev_ok: "chan_id c \<notin> set (channelIds prev)"
    if "map_of (edges c) (edge_id e) = Some prev" for prev
    using assms(1) map_of_SomeD [OF that]
    by (auto simp: edges_exclude_self_def list_all_iff)
  show ?thesis
    using assms(1) self_gone prev_ok
    unfolding edges_exclude_self_def edges_handleHandshake chan_id_handleHandshake
    by (auto intro!: list_all_map_set split: option.splits)
qed

lemma handleHandshake_nothing_new:
  assumes "chan_id c \<noteq> edge_id e" "map_of (edges c) (edge_id e) = Some prev"
    and "new_ids c prev e = []"
  shows "handleHandshake c p e
     = (c, if logger c then [LogHandshake (edge_id e) (chan_id c) (channelIds e)] else [])"
  using assms by (simp add: handleHandshake_def new_ids_def Let_def)

lemma new_ids_empty:
  assumes "set (channelIds e) - {chan_id c} \<subseteq> set (channelIds prev)"
    and "distinct (channelIds e)"
  shows "new_ids c prev e = []"
proof -
  let ?f = "filter (\<lambda>edgeId. edgeId \<notin> set (channelIds prev)) (channelIds e)"
  have d: "distinct ?f" using assms(2) by simp
  have s: "set ?f \<subseteq> {chan_id c}" using assms(1) by auto
  have "?f = [] \<or> ?f = [chan_id c]"
  proof (cases ?f)
    case Nil then show ?thesis by simp
  next
    case (Cons a as)
    with s have a: "a = chan_id c" by auto
    from Cons d s a have "as = []" by (cases as) auto
    with Cons a show ?thesis by simp
  qed
  then show ?thesis
    unfolding new_ids_def Let_def by (elim disjE) simp_all
qed

lemma handleHandshake_known_is_noop:
  assumes "chan_id c \<noteq> edge_id e" "map_of (edges c) (edge_id e) = Some prev"
    and "set (channelIds e) - {chan_id c} \<subseteq> set (channelIds prev)"
    and "distinct (channelIds e)"
  shows "handleHandshake c p e
     = (c, if logger c then [LogHandshake (edge_id e) (chan_id c) (channelIds e)] else [])"
  using handleHandshake_nothing_new [OF assms(1,2) new_ids_empty [OF assms(3,4)]] .

text \<open>
  A list that names the channel's own id twice is not a set of ids, and no handshake
  built by \<^verbatim>\<open>getEdge\<close> is of that kind. On such a list the two branches of
  \<^verbatim>\<open>_handleHandshake\<close> part: for a new peer \<^verbatim>\<open>filter\<close> removes every occurrence of
  the own id, for a known peer \<^verbatim>\<open>splice\<close> removes one.
\<close>

lemma own_id_named_twice:
  "edges (fst (handleHandshake (new_Channel ''A'') 0
       \<lparr>edge_id = ''B'', channelIds = [''A'', ''A'']\<rparr>))
     = [(''B'', \<lparr>edge_id = ''B'', channelIds = []\<rparr>)]
   \<and> edges (fst (handleHandshake
        (fst (handleHandshake (new_Channel ''A'') 0
             \<lparr>edge_id = ''B'', channelIds = [''A'', ''A'']\<rparr>))
        0 \<lparr>edge_id = ''B'', channelIds = [''A'', ''A'']\<rparr>))
     = [(''B'', \<lparr>edge_id = ''B'', channelIds = [''A'']\<rparr>)]"
  by code_simp

text \<open>
  Claim C7. \<^verbatim>\<open>channelIds\<close> is the set of ids the peer knows: the handshake names no
  id twice. When its peer is already known and every id it names, the channel's own
  aside, is already recorded for that peer, handling it changes nothing in the channel
  (the edge table and the waiters for an edge among the rest), resolves no
  \<^verbatim>\<open>waitForEdge\<close> promise and emits no handshake on any pipe; the one thing it does is
  the log line, when a logger is set. The handshake \<^verbatim>\<open>getEdge\<close> builds for any
  channel \<open>s\<close> names no id twice.
\<close>

theorem known_handshake_changes_nothing:
  assumes "map_of (edges c) (edge_id e) = Some prev"
    and "set (channelIds e) - {chan_id c} \<subseteq> set (channelIds prev)"
    and "distinct (channelIds e)"
  shows "fst (handleHandshake c p e) = c
     \<and> edges (fst (handleHandshake c p e)) = edges c
     \<and> (\<forall>q a. EmitHandshake q a \<notin> set (snd (handleHandshake c p e)))
     \<and> (\<forall>h k. ResolveEdge h k \<notin> set (snd (handleHandshake c p e)))
     \<and> snd (handleHandshake c p e)
         = (if logger c \<and> chan_id c \<noteq> edge_id e
            then [LogHandshake (edge_id e) (chan_id c) (channelIds e)] else [])
     \<and> distinct (channelIds (getEdge s))"
proof (cases "chan_id c = edge_id e")
  case True
  then show ?thesis by (simp add: handleHandshake_def getEdge_distinct)
next
  case False
  from handleHandshake_known_is_noop [OF False assms, of p] False
  show ?thesis by (simp add: getEdge_distinct)
qed

text \<open>
  Channel A has met B, which then knew C. B's next handshake names C and A; it is
  delivered to A.
\<close>

theorem known_handshake_changes_nothing_witness:
  "map_of (edges (fst (handleHandshake (fst (addPipe (new_Channel ''A'') 0)) 0
        \<lparr>edge_id = ''B'', channelIds = [''C'']\<rparr>))) ''B''
     = Some \<lparr>edge_id = ''B'', channelIds = [''C'']\<rparr>
   \<and> set [''C'', ''A''] - {''A''} \<subseteq> set [''C'']
   \<and> distinct [''C'', ''A'']
   \<and> handleHandshake
        (fst (handleHandshake (fst (addPipe (new_Channel ''A'') 0)) 0
           \<lparr>edge_id = ''B'', channelIds = [''C'']\<rparr>))
        0 \<lparr>edge_id = ''B'', channelIds = [''C'', ''A'']\<rparr>
     = (fst (handleHandshake (fst (addPipe (new_Channel ''A'') 0)) 0
           \<lparr>edge_id = ''B'', channelIds = [''C'']\<rparr>), [])"
proof -
  let ?c = "fst (handleHandshake (fst (addPipe (new_Channel ''A'') 0)) 0
           \<lparr>edge_id = ''B'', channelIds = [''C'']\<rparr>)"
  let ?e = "\<lparr>edge_id = ''B'', channelIds = [''C'', ''A'']\<rparr>"
  let ?prev = "\<lparr>edge_id = ''B'', channelIds = [''C'']\<rparr>"
  have k: "map_of (edges ?c) ''B'' = Some ?prev"
    by code_simp
  have i: "chan_id ?c = ''A''" and l: "\<not> logger ?c"
    by code_simp+
  have a1: "map_of (edges ?c) (edge_id ?e) = Some ?prev"
    using k by simp
  have s: "set [''C'', ''A''] - {''A''} \<subseteq> set [''C'']"
    by auto
  have a2: "set (channelIds ?e) - {chan_id ?c} \<subseteq> set (channelIds ?prev)"
    using s by (simp add: i)
  have a3: "distinct (channelIds ?e)"
    by simp
  from known_handshake_changes_nothing [OF a1 a2 a3, of 0] l
  have "fst (handleHandshake ?c 0 ?e) = ?c" and "snd (handleHandshake ?c 0 ?e) = []"
    by simp_all
  then have n: "handleHandshake ?c 0 ?e = (?c, [])"
    by (simp add: prod_eq_iff)
  have d: "distinct [''C'', ''A'']"
    by simp
  from k s d n show ?thesis
    by (intro conjI)
qed

section \<open>The invariant under every operation\<close>

lemma new_Channel_invariant:
  "edges_keyed (new_Channel i) \<and> edges_exclude_self (new_Channel i)"
  by (simp add: edges_keyed_def edges_exclude_self_def new_Channel_def)

text \<open>Only a handshake touches the edge table, and nothing changes the channel's id.\<close>

lemma perform_leaves_edges:
  assumes "\<And>p e. x \<noteq> HandleHandshake p e"
  shows "edges (fst (perform c x)) = edges c \<and> chan_id (fst (perform c x)) = chan_id c"
proof (cases x)
  case (HandleHandshake p e)
  with assms show ?thesis by blast
qed (simp_all add: addPipe_def setLogger_def handleMessage_def emit_event_def run_callback_def
      waitForEdge_def call_def call_register_def timeout_fires_def on_def once_def off_def
      onCall_def removeCaller_def destroy_def Let_def split: option.splits)

text \<open>Every handshake a channel emits names no id twice.\<close>

lemma emitted_handshake_is_a_set:
  assumes "EmitHandshake q a \<in> set (snd (perform c x))"
  shows "distinct (channelIds a)"
proof -
  have hs: "EmitHandshake q a \<in> set (handshakeAll c') \<Longrightarrow> distinct (channelIds a)" for c'
    by (auto simp: handshakeAll_def emitHandshake_def getEdge_distinct)
  show ?thesis
  proof (cases x)
    case (HandleHandshake p e)
    with assms show ?thesis
      by (auto simp: handleHandshake_def topology_changed_def emit_edgeCreate_def Let_def
          dest!: hs split: if_splits option.splits)
  next
    case HandshakeAll
    with assms hs show ?thesis by auto
  next
    case (HandleMessage p m)
    with assms show ?thesis
      by (auto simp: handleMessage_def emitMessage_def emit_event_def run_callback_def Let_def
          split: if_splits option.splits)
  qed (use assms in \<open>auto simp: addPipe_def callerSettled_def emitMessage_def waitForEdge_def
      send_def call_def call_register_def timeout_fires_def Let_def
      split: if_splits option.splits outcome.splits\<close>)
qed

text \<open>
  Claim C8. \<^verbatim>\<open>channelIds\<close> is the set of ids the peer knows: a handshake names no id
  twice. Then every operation of a channel keeps the edge table with one edge per peer
  id, stored under that id, and with no edge that lists the channel's own id; and the
  ids recorded for a peer after the operation include those recorded before it. The
  handshakes the operation emits name no id twice either.
\<close>

theorem operations_keep_edge_invariant:
  assumes "edges_keyed c" and "edges_exclude_self c" and "announces_a_set x"
  shows "edges_keyed (fst (perform c x))
     \<and> edges_exclude_self (fst (perform c x))
     \<and> (\<forall>k. reachable_through c k \<subseteq> reachable_through (fst (perform c x)) k)
     \<and> (\<forall>q a. EmitHandshake q a \<in> set (snd (perform c x)) \<longrightarrow> distinct (channelIds a))"
proof -
  have em: "\<forall>q a. EmitHandshake q a \<in> set (snd (perform c x)) \<longrightarrow> distinct (channelIds a)"
    using emitted_handshake_is_a_set by blast
  show ?thesis
  proof (cases "\<exists>p e. x = HandleHandshake p e")
    case True
    then obtain p e where x: "x = HandleHandshake p e" by blast
    with assms(3) have d: "distinct (channelIds e)" by simp
    show ?thesis
      using handleHandshake_keeps_keys [OF assms(1), of p e]
        handleHandshake_excludes_self [OF assms(2) d, of p]
        handleHandshake_grows [of c _ p e] em
      unfolding x by simp
  next
    case False
    then have "edges (fst (perform c x)) = edges c \<and> chan_id (fst (perform c x)) = chan_id c"
      by (intro perform_leaves_edges) blast
    with assms(1,2) em show ?thesis
      by (simp add: edges_keyed_def edges_exclude_self_def reachable_through_def)
  qed
qed

text \<open>
  Channel A has met B; B's next handshake names C and A. The edge of B takes C and
  leaves A out.
\<close>

theorem operations_keep_edge_invariant_witness:
  "edges_keyed (fst (handleHandshake (new_Channel ''A'') 0 \<lparr>edge_id = ''B'', channelIds = []\<rparr>))
   \<and> edges_exclude_self
       (fst (handleHandshake (new_Channel ''A'') 0 \<lparr>edge_id = ''B'', channelIds = []\<rparr>))
   \<and> announces_a_set (HandleHandshake 0 \<lparr>edge_id = ''B'', channelIds = [''C'', ''A'']\<rparr>)
   \<and> edges_exclude_self
       (fst (perform
          (fst (handleHandshake (new_Channel ''A'') 0 \<lparr>edge_id = ''B'', channelIds = []\<rparr>))
          (HandleHandshake 0 \<lparr>edge_id = ''B'', channelIds = [''C'', ''A'']\<rparr>)))
   \<and> edges (fst (perform
          (fst (handleHandshake (new_Channel ''A'') 0 \<lparr>edge_id = ''B'', channelIds = []\<rparr>))
          (HandleHandshake 0 \<lparr>edge_id = ''B'', channelIds = [''C'', ''A'']\<rparr>)))
       = [(''B'', \<lparr>edge_id = ''B'', channelIds = [''C'']\<rparr>)]"
proof -
  let ?c = "fst (handleHandshake (new_Channel ''A'') 0 \<lparr>edge_id = ''B'', channelIds = []\<rparr>)"
  let ?x = "HandleHandshake 0 \<lparr>edge_id = ''B'', channelIds = [''C'', ''A'']\<rparr>"
  have a1: "edges_keyed ?c" and a2: "edges_exclude_self ?c"
    by code_simp+
  have a3: "announces_a_set ?x"
    by simp
  have ev: "edges (fst (perform ?c ?x)) = [(''B'', \<lparr>edge_id = ''B'', channelIds = [''C'']\<rparr>)]"
    by code_simp
  from operations_keep_edge_invariant [OF a1 a2 a3]
  have "edges_exclude_self (fst (perform ?c ?x))"
    by blast
  with a1 a2 a3 ev show ?thesis
    by (intro conjI)
qed

section \<open>A call across three channels\<close>

text \<open>
  \<^verbatim>\<open>findEdgeId\<close> answers the first edge, in insertion order, that lists the
  destination, whether or not a later edge is the destination itself.
\<close>

lemma findEdgeId_first_edge_wins:
  "edges c = (k, e) # es \<Longrightarrow> d \<in> set (channelIds e) \<Longrightarrow> findEdgeId c d = Some (edge_id e)"
  by (simp add: findEdgeId_def)

subsection \<open>Running the network\<close>

lemma then_do_alt: "then_do r f = (fst (f (fst r)), snd r @ snd (f (fst r)))"
  by (simp add: then_do_def split: prod.splits)

lemma run_net_Suc_alt: "run_net (Suc k) w = then_do (net_step w) (run_net k)"
  by (simp add: then_do_def)

lemma run_net_add: "run_net (a + b) w = then_do (run_net a w) (run_net b)"
proof (induction a arbitrary: w)
  case 0
  show ?case by (simp add: then_do_alt)
next
  case (Suc a)
  have "run_net (Suc a + b) w = then_do (net_step w) (run_net (a + b))"
    by (simp add: then_do_def)
  also have "\<dots> = then_do (run_net (Suc a) w) (run_net b)"
    unfolding run_net_Suc_alt by (simp add: then_do_alt Suc.IH)
  finally show ?case .
qed

lemma map_set_same: "map_of xs k = Some v \<Longrightarrow> map_set xs k v = xs"
  by (induction xs k v rule: map_set.induct) (auto split: if_splits)

lemma net_step_forward:
  assumes "queue w = DeliverMessage ow p m # ts" and "node w ow = Some c"
    and "destination m \<noteq> chan_id c" and "proxiedBy m \<noteq> Some (chan_id c)"
    and "findEdgeId c (destination m) = Some e" and "e \<noteq> []" and "edgePipes c e = Some q"
    and "map_of (wires w) q = Some (o', p')"
  shows "net_step w
     = (w\<lparr>queue := ts @ [DeliverMessage o' p' (m\<lparr>proxiedBy := Some (chan_id c)\<rparr>)]\<rparr>,
        [(ow, EmitMessage q (m\<lparr>proxiedBy := Some (chan_id c)\<rparr>))])"
proof -
  have hm: "handleMessage c p m = (c, [EmitMessage q (m\<lparr>proxiedBy := Some (chan_id c)\<rparr>)])"
    by (rule handleMessage_forward) (use assms in auto)
  have same: "map_set (nodes w) ow c = nodes w"
    using assms(2) by (simp add: node_def map_set_same)
  show ?thesis
    using assms(1,2,8) hm same
    by (simp add: net_step_def net_do_def node_def)
qed

subsection \<open>A message for A between B and C\<close>

lemma bounces_step:
  assumes mis: "line_misroutes w0" and d: "destination m = ''A''" and b: "bounces w0 m w"
  shows "bounces w0 m (fst (net_step w))
     \<and> \<not> list_ex (\<lambda>ox. is_settle (snd ox)) (snd (net_step w))"
proof -
  from mis obtain cC where cC: "node w0 ''C'' = Some cC"
    "chan_id cC = ''C''" "findEdgeId cC ''A'' = Some ''B''" "edgePipes cC ''B'' = Some 3"
    by (auto simp: line_misroutes_def split: option.splits)
  from mis obtain cB where cB: "node w0 ''B'' = Some cB"
    "chan_id cB = ''B''" "findEdgeId cB ''A'' = Some ''C''" "edgePipes cB ''C'' = Some 2"
    by (auto simp: line_misroutes_def split: option.splits)
  from b have n: "nodes w = nodes w0" and ws: "wires w = line_wires"
    by (simp_all add: bounces_def)
  from b consider
      (toC) "queue w = [DeliverMessage ''C'' 3 (m\<lparr>proxiedBy := Some ''B''\<rparr>)]"
    | (toB) "queue w = [DeliverMessage ''B'' 2 (m\<lparr>proxiedBy := Some ''C''\<rparr>)]"
    by (auto simp: bounces_def)
  then show ?thesis
  proof cases
    case toC
    have "net_step w
       = (w\<lparr>queue := [] @ [DeliverMessage ''B'' 2
                (m\<lparr>proxiedBy := Some ''B''\<rparr>\<lparr>proxiedBy := Some (chan_id cC)\<rparr>)]\<rparr>,
          [(''C'', EmitMessage 3 (m\<lparr>proxiedBy := Some ''B''\<rparr>\<lparr>proxiedBy := Some (chan_id cC)\<rparr>))])"
      by (rule net_step_forward [where e = "''B''"])
        (use toC cC n ws d in \<open>simp_all add: node_def line_wires_def\<close>)
    then show ?thesis
      using n ws cC(2) by (simp add: bounces_def)
  next
    case toB
    have "net_step w
       = (w\<lparr>queue := [] @ [DeliverMessage ''C'' 3
                (m\<lparr>proxiedBy := Some ''C''\<rparr>\<lparr>proxiedBy := Some (chan_id cB)\<rparr>)]\<rparr>,
          [(''B'', EmitMessage 2 (m\<lparr>proxiedBy := Some ''C''\<rparr>\<lparr>proxiedBy := Some (chan_id cB)\<rparr>))])"
      by (rule net_step_forward [where e = "''C''"])
        (use toB cB n ws d in \<open>simp_all add: node_def line_wires_def\<close>)
    then show ?thesis
      using n ws cB(2) by (simp add: bounces_def)
  qed
qed

lemma bounces_run:
  assumes mis: "line_misroutes w0" and d: "destination m = ''A''"
  shows "bounces w0 m w \<Longrightarrow>
     bounces w0 m (fst (run_net j w))
     \<and> \<not> list_ex (\<lambda>ox. is_settle (snd ox)) (snd (run_net j w))"
proof (induction j arbitrary: w)
  case 0
  then show ?case by simp
next
  case (Suc j)
  from bounces_step [OF mis d Suc.prems] Suc.IH [of "fst (net_step w)"]
  show ?case unfolding run_net_Suc_alt by (simp add: then_do_alt)
qed

subsection \<open>The call of \<^verbatim>\<open>ping\<close>\<close>

lemma obs_queue: "queue (fst (line_after 10)) = [DeliverMessage ''C'' 3 bounce_to_C]"
  by code_simp

lemma obs_wires: "wires (fst (line_after 10)) = line_wires"
  by code_simp

lemma obs_misroutes: "line_misroutes (fst (line_after 10))"
  by code_simp

lemma obs_A: "(case node (fst (line_after 10)) ''A'' of None \<Rightarrow> False
   | Some c \<Rightarrow> callbacks c ''n1'' = Some 8)"
  by code_simp

lemma obs_trace: "\<not> list_ex (\<lambda>ox. is_settle (snd ox)) (snd (line_after 10))"
  by code_simp

lemma obs_request:
  "(''B'', EmitMessage 2
        \<lparr>name = ''ping'', destination = ''C'', data = DArr [DNum 1], source = ''A'',
         proxiedBy = Some ''B'', nonce = Some ''n1''\<rparr>) \<in> set (snd (line_after 10))
   \<and> (''C'', EmitMessage 3
        \<lparr>name = ''ping'', destination = ''A'', data = DNum 2, source = ''C'',
         proxiedBy = None, nonce = Some ''n1''\<rparr>) \<in> set (snd (line_after 10))"
  by code_simp

lemma obs_settled: "queue (fst line_settled) = []
  \<and> map_option (\<lambda>c. findEdgeId c ''C'') (node (fst line_settled) ''A'') = Some (Some ''B'')
  \<and> map_option (\<lambda>c. findEdgeId c ''A'') (node (fst line_settled) ''B'') = Some (Some ''C'')
  \<and> map_option (\<lambda>c. findEdgeId c ''A'') (node (fst line_settled) ''C'') = Some (Some ''B'')
  \<and> map_option (\<lambda>c. findEdgeId c ''C'') (node (fst line_settled) ''B'') = Some (Some ''C'')"
  by code_simp

lemma bouncing_start: "bounces (fst (line_after 10)) bounce_to_C (fst (line_after 10))"
  using obs_queue obs_wires by (simp add: bounces_def bounce_to_C_def)

lemma line_after_add: "line_after (a + b) = then_do (line_after a) (run_net b)"
  by (simp add: line_after_def run_net_add then_do_alt)

lemma line_after_late:
  "bounces (fst (line_after 10)) bounce_to_C (fst (line_after (10 + j)))
   \<and> \<not> list_ex (\<lambda>ox. is_settle (snd ox)) (snd (line_after (10 + j)))"
  using bounces_run [OF obs_misroutes _ bouncing_start, of j] obs_trace
  by (simp add: line_after_add then_do_alt bounce_to_C_def)

lemma line_after_never_settles: "\<not> list_ex (\<lambda>ox. is_settle (snd ox)) (snd (line_after j))"
proof (cases "j \<le> 10")
  case True
  then have "line_after 10 = then_do (line_after j) (run_net (10 - j))"
    using line_after_add [of j "10 - j"] by simp
  with obs_trace show ?thesis
    by (simp add: then_do_alt)
next
  case False
  then have "j = 10 + (j - 10)" by simp
  with line_after_late [of "j - 10"] show ?thesis by metis
qed

text \<open>
  Claim C4 on the line A - B - C. When the handshakes have settled A routes to C
  through B, and B, which met C before A and was then told by C that A lies behind it,
  routes to A through C. The call of A reaches C through B and C answers 2, but B
  forwards the response back to C and C back to B, without end: at no moment does any
  promise settle, from the tenth task after the call on the response is the one message
  in flight, and the call of A stays pending.
\<close>

theorem line_call_never_settles:
  "queue (fst line_settled) = []
   \<and> map_option (\<lambda>c. findEdgeId c ''C'') (node (fst line_settled) ''A'') = Some (Some ''B'')
   \<and> map_option (\<lambda>c. findEdgeId c ''A'') (node (fst line_settled) ''B'') = Some (Some ''C'')
   \<and> (''B'', EmitMessage 2
        \<lparr>name = ''ping'', destination = ''C'', data = DArr [DNum 1], source = ''A'',
         proxiedBy = Some ''B'', nonce = Some ''n1''\<rparr>) \<in> set (snd (line_after 10))
   \<and> (''C'', EmitMessage 3
        \<lparr>name = ''ping'', destination = ''A'', data = DNum 2, source = ''C'',
         proxiedBy = None, nonce = Some ''n1''\<rparr>) \<in> set (snd (line_after 10))
   \<and> (\<forall>j. \<not> list_ex (\<lambda>ox. is_settle (snd ox)) (snd (line_after j)))
   \<and> (\<forall>j. queue (fst (line_after (10 + j))) = [DeliverMessage ''C'' 3 bounce_to_C]
          \<or> queue (fst (line_after (10 + j))) = [DeliverMessage ''B'' 2 bounce_to_B])
   \<and> (\<forall>j. map_option (\<lambda>c. callbacks c ''n1'') (node (fst (line_after (10 + j))) ''A'') = Some (Some 8))"
proof -
  have pend: "map_option (\<lambda>c. callbacks c ''n1'') (node (fst (line_after (10 + j))) ''A'') = Some (Some 8)" for j
  proof -
    from line_after_late [of j] have "nodes (fst (line_after (10 + j))) = nodes (fst (line_after 10))"
      by (simp add: bounces_def)
    then have "node (fst (line_after (10 + j))) ''A'' = node (fst (line_after 10)) ''A''"
      by (simp add: node_def)
    with obs_A show ?thesis by (auto split: option.splits)
  qed
  from obs_settled obs_request line_after_never_settles line_after_late pend show ?thesis
    by (simp add: bounces_def bounce_to_C_def bounce_to_B_def)
qed

subsection \<open>The call of \<^verbatim>\<open>boom\<close>\<close>

lemma fail_queue:
  "queue (fst (fail_after 10))
     = [DeliverMessage ''C'' 3 (kaput_response\<lparr>proxiedBy := Some ''B''\<rparr>)]"
  by code_simp

lemma fail_wires: "wires (fst (fail_after 10)) = line_wires"
  by code_simp

lemma fail_misroutes: "line_misroutes (fst (fail_after 10))"
  by code_simp

lemma fail_A: "(case node (fst (fail_after 10)) ''A'' of None \<Rightarrow> False
   | Some c \<Rightarrow> callbacks c ''n1'' = Some 8)"
  by code_simp

lemma fail_trace: "\<not> list_ex (\<lambda>ox. is_settle (snd ox)) (snd (fail_after 10))"
  by code_simp

lemma fail_host:
  "queue (fst fail_settled) = []
   \<and> (''A'', EmitMessage 0
        \<lparr>name = ''boom'', destination = ''C'', data = DArr [], source = ''A'',
         proxiedBy = None, nonce = Some ''n1''\<rparr>) \<in> set (snd (fail_after 10))
   \<and> (''C'', InvokeCaller
        \<lparr>name = ''boom'', destination = ''C'', data = DArr [], source = ''A'',
         proxiedBy = Some ''B'', nonce = Some ''n1''\<rparr>
        (Throws (ThrownError ''kaput''))) \<in> set (snd (fail_after 10))
   \<and> (''C'', ConsoleError (ThrownError ''kaput'')) \<in> set (snd (fail_after 10))
   \<and> (''C'', EmitMessage 3 kaput_response) \<in> set (snd (fail_after 10))
   \<and> (''B'', EmitMessage 2 (kaput_response\<lparr>proxiedBy := Some ''B''\<rparr>))
        \<in> set (snd (fail_after 10))"
  by code_simp

lemma fail_start:
  "bounces (fst (fail_after 10)) kaput_response (fst (fail_after 10))"
  using fail_queue fail_wires by (simp add: bounces_def)

lemma fail_after_add: "fail_after (a + b) = then_do (fail_after a) (run_net b)"
  by (simp add: fail_after_def run_net_add then_do_alt)

lemma fail_after_late:
  "bounces (fst (fail_after 10)) kaput_response (fst (fail_after (10 + j)))
   \<and> \<not> list_ex (\<lambda>ox. is_settle (snd ox)) (snd (fail_after (10 + j)))"
  using bounces_run [OF fail_misroutes _ fail_start, of j] fail_trace
  by (simp add: fail_after_add then_do_alt kaput_response_def)

lemma fail_after_never_settles: "\<not> list_ex (\<lambda>ox. is_settle (snd ox)) (snd (fail_after j))"
proof (cases "j \<le> 10")
  case True
  then have "fail_after 10 = then_do (fail_after j) (run_net (10 - j))"
    using fail_after_add [of j "10 - j"] by simp
  with fail_trace show ?thesis
    by (simp add: then_do_alt)
next
  case False
  then have "j = 10 + (j - 10)" by simp
  with fail_after_late [of "j - 10"] show ?thesis by metis
qed

text \<open>
  Claim C6 on the line A - B - C, where the handler \<^verbatim>\<open>boom\<close> of the host C throws
  \<^verbatim>\<open>new Error('kaput')\<close>. The call of A reaches C through B; C invokes the handler,
  logs the failure and sends the response that carries \<^verbatim>\<open>Error('kaput')\<close> to B. B
  forwards it back to C and C back to B, without end: at no moment does any promise
  settle, from the tenth task after the call on that response is the one message in
  flight, and the call of A stays pending.
\<close>

theorem line_failure_never_reaches_caller:
  "queue (fst fail_settled) = []
   \<and> (''A'', EmitMessage 0
        \<lparr>name = ''boom'', destination = ''C'', data = DArr [], source = ''A'',
         proxiedBy = None, nonce = Some ''n1''\<rparr>) \<in> set (snd (fail_after 10))
   \<and> (''C'', InvokeCaller
        \<lparr>name = ''boom'', destination = ''C'', data = DArr [], source = ''A'',
         proxiedBy = Some ''B'', nonce = Some ''n1''\<rparr>
        (Throws (ThrownError ''kaput''))) \<in> set (snd (fail_after 10))
   \<and> (''C'', ConsoleError (ThrownError ''kaput'')) \<in> set (snd (fail_after 10))
   \<and> (''C'', EmitMessage 3
        \<lparr>name = ''boom'', destination = ''A'', data = DErr ''kaput'', source = ''C'',
         proxiedBy = None, nonce = Some ''n1''\<rparr>) \<in> set (snd (fail_after 10))
   \<and> (''B'', EmitMessage 2
        \<lparr>name = ''boom'', destination = ''A'', data = DErr ''kaput'', source = ''C'',
         proxiedBy = Some ''B'', nonce = Some ''n1''\<rparr>) \<in> set (snd (fail_after 10))
   \<and> (\<forall>j. \<not> list_ex (\<lambda>ox. is_settle (snd ox)) (snd (fail_after j)))
   \<and> (\<forall>j. queue (fst (fail_after (10 + j)))
            = [DeliverMessage ''C'' 3
                 \<lparr>name = ''boom'', destination = ''A'', data = DErr ''kaput'', source = ''C'',
                  proxiedBy = Some ''B'', nonce = Some ''n1''\<rparr>]
          \<or> queue (fst (fail_after (10 + j)))
            = [DeliverMessage ''B'' 2
                 \<lparr>name = ''boom'', destination = ''A'', data = DErr ''kaput'', source = ''C'',
                  proxiedBy = Some ''C'', nonce = Some ''n1''\<rparr>])
   \<and> (\<forall>j. map_option (\<lambda>c. callbacks c ''n1'') (node (fst (fail_after (10 + j))) ''A'') = Some (Some 8))"
proof -
  have pend: "map_option (\<lambda>c. callbacks c ''n1'') (node (fst (fail_after (10 + j))) ''A'') = Some (Some 8)" for j
  proof -
    from fail_after_late [of j] have "nodes (fst (fail_after (10 + j))) = nodes (fst (fail_after 10))"
      by (simp add: bounces_def)
    then have "node (fst (fail_after (10 + j))) ''A'' = node (fst (fail_after 10)) ''A''"
      by (simp add: node_def)
    with fail_A show ?thesis by (auto split: option.splits)
  qed
  from fail_host fail_after_never_settles fail_after_late pend show ?thesis
    by (simp add: bounces_def kaput_response_def)
qed

end
